theory Spec2Isabelle
  imports Main
begin

section \<open>The conversion driver of ccx2paraview (ccx2paraview/main.py)\<close>

text \<open>
  The driver stages the input file, parses it once, derives the sorted list of distinct
  time values and calls one writer per time value. The embedding follows
  \<^verbatim>\<open>Converter.__init__\<close>, \<^verbatim>\<open>Converter.run\<close>, the two properties
  \<^verbatim>\<open>output_folder\<close> and \<^verbatim>\<open>output_file\<close>, and the command-line block.

  Python strings are \<^typ>\<open>string\<close>; path functions are those of \<^verbatim>\<open>posixpath\<close>.
  Time values are elements of a linear order (floats without NaN).
\<close>

subsection \<open>Python string operations used by the driver\<close>

definition startswith :: "string \<Rightarrow> string \<Rightarrow> bool" where
  "startswith s p = (take (length p) s = p)"

definition endswith :: "string \<Rightarrow> string \<Rightarrow> bool" where
  "endswith s p = (length p \<le> length s \<and> drop (length s - length p) s = p)"

text \<open>
  \<^verbatim>\<open>s.replace(old, new)\<close>: occurrences of \<open>old\<close> are replaced from left to right
  without overlap. For an empty \<open>old\<close> Python puts \<open>new\<close> before every character
  and at the end.
\<close>

function replace :: "string \<Rightarrow> string \<Rightarrow> string \<Rightarrow> string" where
  "replace s old new =
     (if old = [] then new @ concat (map (\<lambda>c. c # new) s)
      else if s = [] then []
      else if startswith s old then new @ replace (drop (length old) s) old new
      else hd s # replace (tl s) old new)"
  by pat_completeness auto
termination
  by (relation "measure (\<lambda>(s, old, new). length s)") auto

declare replace.simps [simp del]

text \<open>\<^verbatim>\<open>s.split(sep)\<close> for a one-character separator: never the empty list.\<close>

fun split :: "string \<Rightarrow> char \<Rightarrow> string list" where
  "split [] sep = [[]]"
| "split (c # cs) sep =
     (if c = sep then [] # split cs sep
      else (case split cs sep of
              [] \<Rightarrow> [[c]]
            | x # xs \<Rightarrow> (c # x) # xs))"

text \<open>\<^verbatim>\<open>str(n)\<close> for a non-negative integer: its decimal digits.\<close>

definition digit :: "nat \<Rightarrow> char" where
  "digit d = ''0123456789'' ! d"

fun str :: "nat \<Rightarrow> string" where
  "str n = (if n < 10 then [digit n] else str (n div 10) @ [digit (n mod 10)])"

declare str.simps [simp del]

text \<open>
  The format specification \<^verbatim>\<open>{:0{width}}\<close> applied to a non-negative integer:
  zeros on the left up to \<open>width\<close> characters, nothing cut when the number is longer.
\<close>

definition format_0 :: "nat \<Rightarrow> nat \<Rightarrow> string" where
  "format_0 n width = replicate (width - length (str n)) (CHR ''0'') @ str n"

subsection \<open>The path functions of posixpath\<close>

definition rstrip_sep :: "string \<Rightarrow> string" where
  "rstrip_sep s = rev (dropWhile (\<lambda>c. c = CHR ''/'') (rev s))"

text \<open>
  \<^verbatim>\<open>os.path.split(p)\<close>: \<open>i = p.rfind('/') + 1\<close>, \<open>head, tail = p[:i], p[i:]\<close>; the
  head loses its trailing slashes unless it consists of slashes only.
\<close>

definition os_path_split :: "string \<Rightarrow> string \<times> string" where
  "os_path_split p =
     (let tail = rev (takeWhile (\<lambda>c. c \<noteq> CHR ''/'') (rev p));
          head = take (length p - length tail) p
      in (if head \<noteq> [] \<and> head \<noteq> replicate (length head) (CHR ''/'')
          then rstrip_sep head else head, tail))"

definition os_path_dirname :: "string \<Rightarrow> string" where
  "os_path_dirname p = fst (os_path_split p)"

text \<open>\<^verbatim>\<open>os.path.join(a, b)\<close> with two arguments.\<close>

definition os_path_join :: "string \<Rightarrow> string \<Rightarrow> string" where
  "os_path_join a b =
     (if startswith b ''/'' then b
      else if a = [] \<or> endswith a ''/'' then a @ b
      else a @ ''/'' @ b)"

subsection \<open>The Converter object\<close>

datatype error = IndexError | FileNotFoundError | SameFileError | MalformedFile

record Converter =
  file_path :: string
  file_name :: string
  priv_output_folder :: "string option"
  ext :: string
  fmt :: string

text \<open>
  \<^verbatim>\<open>Converter.__init__\<close>: the basename is split at every dot; \<open>temp[0]\<close> is the
  name and \<open>temp[1]\<close> the extension. A basename without a dot has no \<open>temp[1]\<close>:
  IndexError.
\<close>

definition Converter_init :: "string \<Rightarrow> string \<Rightarrow> string option \<Rightarrow> error + Converter" where
  "Converter_init file_path' fmt' output_folder' =
     (let temp = split (snd (os_path_split file_path')) (CHR ''.'')
      in case temp of
           t0 # t1 # rest \<Rightarrow>
             Inr \<lparr>file_path = file_path', file_name = t0,
                  priv_output_folder = output_folder', ext = t1, fmt = fmt'\<rparr>
         | _ \<Rightarrow> Inl IndexError)"

text \<open>
  The property \<^verbatim>\<open>output_folder\<close>. \<^verbatim>\<open>os.path.abspath\<close> depends on the working
  directory of the process and is a parameter of the environment.
\<close>

definition output_folder :: "(string \<Rightarrow> string) \<Rightarrow> Converter \<Rightarrow> string" where
  "output_folder abspath self =
     (case priv_output_folder self of
        None \<Rightarrow> os_path_join (os_path_dirname (file_path self)) ''results''
      | Some folder \<Rightarrow> abspath folder)"

definition output_file :: "(string \<Rightarrow> string) \<Rightarrow> Converter \<Rightarrow> string" where
  "output_file abspath self =
     os_path_join (output_folder abspath self) (file_name self @ ''.'' @ ext self)"

subsection \<open>The parser's result, the collaborators and the world\<close>

text \<open>
  Modelled from the spec: the module FRDParser is not part of the source at hand. Its
  result carries a node block, an element block and an ordered collection of result
  blocks, each tagged with a time value. A block that was not found is \<open>None\<close>, which
  is what the test \<^verbatim>\<open>p.node_block and p.elem_block\<close> of the driver reads. The payload
  of a block is of no concern to the driver and stays a type parameter.
\<close>

record ('t, 'b) result_block =
  rb_value :: 't
  rb_data :: 'b

record ('t, 'b) frd =
  node_block :: "'b option"
  elem_block :: "'b option"
  result_blocks :: "('t, 'b) result_block list"

datatype level = INFO | WARNING

text \<open>Every call the driver makes to the outside, in the order of the calls.\<close>

datatype ('t, 'b) event =
    Makedirs string
  | Copy string string
  | Log level string
  | Parse string
  | WriteVTK "('t, 'b) frd" string "'t option"
  | WriteVTU "('t, 'b) frd" string "'t option"
  | WritePVD string "('t \<times> string) list"
  | Print string
  | CleanCache

text \<open>
  The world: regular files (path to content), the directories created, and the trace of
  calls. Paths are compared as strings.
\<close>

record ('t, 'b) world =
  files :: "string \<rightharpoonup> string"
  dirs :: "string set"
  trace :: "('t, 'b) event list"

text \<open>
  Modelled from the spec: the modules FRDParser, VTKWriter, VTUWriter and PVDWriter are
  not part of the source at hand. The parser reads the file at the given path and yields
  a parse result or fails with MalformedFile; each writer writes one file, at the name
  it is given, whose content is a function of its arguments. \<^verbatim>\<open>os.path.abspath\<close> and
  \<^verbatim>\<open>os.path.relpath\<close> depend on the process and are parameters as well.
\<close>

record ('t, 'b) env =
  abspath :: "string \<Rightarrow> string"
  relpath :: "string \<Rightarrow> string"
  parse_frd :: "string \<Rightarrow> error + ('t, 'b) frd"
  vtk_text :: "('t, 'b) frd \<Rightarrow> 't option \<Rightarrow> string"
  vtu_text :: "('t, 'b) frd \<Rightarrow> 't option \<Rightarrow> string"
  pvd_text :: "('t \<times> string) list \<Rightarrow> string"

definition emit :: "('t, 'b) event \<Rightarrow> ('t, 'b) world \<Rightarrow> ('t, 'b) world" where
  "emit e w = w\<lparr>trace := trace w @ [e]\<rparr>"

text \<open>
  \<^verbatim>\<open>os.makedirs(path, exist_ok=True)\<close>. Of the failures of the operating system the
  model has the two of the copy below; permissions, a directory in the place of a file
  and two spellings of one path are outside it, and a writer is taken to write its file.
\<close>

definition makedirs :: "string \<Rightarrow> ('t, 'b) world \<Rightarrow> ('t, 'b) world" where
  "makedirs path w = emit (Makedirs path) (w\<lparr>dirs := insert path (dirs w)\<rparr>)"

text \<open>
  \<^verbatim>\<open>shutil.copy(src, dst)\<close>: SameFileError when source and destination are the same
  file, FileNotFoundError when the source does not exist.
\<close>

definition shutil_copy ::
  "string \<Rightarrow> string \<Rightarrow> ('t, 'b) world \<Rightarrow> error option \<times> ('t, 'b) world" where
  "shutil_copy src dst w =
     (let w' = emit (Copy src dst) w
      in if src = dst then (Some SameFileError, w')
         else (case files w src of
                 None \<Rightarrow> (Some FileNotFoundError, w')
               | Some content \<Rightarrow> (None, w'\<lparr>files := (files w')(dst \<mapsto> content)\<rparr>)))"

definition logging_info :: "string \<Rightarrow> ('t, 'b) world \<Rightarrow> ('t, 'b) world" where
  "logging_info msg w = emit (Log INFO msg) w"

definition logging_warning :: "string \<Rightarrow> ('t, 'b) world \<Rightarrow> ('t, 'b) world" where
  "logging_warning msg w = emit (Log WARNING msg) w"

definition FRDParser_Parse ::
  "('t, 'b) env \<Rightarrow> string \<Rightarrow> ('t, 'b) world \<Rightarrow> (error + ('t, 'b) frd) \<times> ('t, 'b) world" where
  "FRDParser_Parse env path w =
     (let w' = emit (Parse path) w
      in case files w path of
           None \<Rightarrow> (Inl FileNotFoundError, w')
         | Some content \<Rightarrow> (parse_frd env content, w'))"

definition writeVTK ::
  "('t, 'b) env \<Rightarrow> ('t, 'b) frd \<Rightarrow> string \<Rightarrow> 't option \<Rightarrow> ('t, 'b) world \<Rightarrow> ('t, 'b) world" where
  "writeVTK env p name t w =
     emit (WriteVTK p name t) (w\<lparr>files := (files w)(name \<mapsto> vtk_text env p t)\<rparr>)"

definition writeVTU ::
  "('t, 'b) env \<Rightarrow> ('t, 'b) frd \<Rightarrow> string \<Rightarrow> 't option \<Rightarrow> ('t, 'b) world \<Rightarrow> ('t, 'b) world" where
  "writeVTU env p name t w =
     emit (WriteVTU p name t) (w\<lparr>files := (files w)(name \<mapsto> vtu_text env p t)\<rparr>)"

definition writePVD ::
  "('t, 'b) env \<Rightarrow> string \<Rightarrow> ('t \<times> string) list \<Rightarrow> ('t, 'b) world \<Rightarrow> ('t, 'b) world" where
  "writePVD env name times_names w =
     emit (WritePVD name times_names) (w\<lparr>files := (files w)(name \<mapsto> pvd_text env times_names)\<rparr>)"

subsection \<open>Converter.run\<close>

text \<open>
  A Python dict keeps its keys in insertion order; assigning to a key that is present
  keeps the key's place.
\<close>

fun dict_set :: "('k \<times> 'v) list \<Rightarrow> 'k \<Rightarrow> 'v \<Rightarrow> ('k \<times> 'v) list" where
  "dict_set [] k v = [(k, v)]"
| "dict_set ((k', v') # d) k v = (if k' = k then (k, v) # d else (k', v') # dict_set d k v)"

text \<open>
  The extension that replaces \<^verbatim>\<open>.frd\<close> (lines 74 to 78): with more than one
  increment the counter, padded with zeros to the number of digits of \<open>l\<close>.
\<close>

definition ext_of :: "string \<Rightarrow> nat \<Rightarrow> nat \<Rightarrow> string" where
  "ext_of fmt' l counter =
     (if l > 1 then ''.'' @ format_0 counter (length (str l)) @ ''.'' @ fmt'
      else ''.'' @ fmt')"

text \<open>The loop of lines 73 to 80, with \<open>counter\<close> and \<open>times_names\<close> as its state.\<close>

fun name_loop ::
  "string \<Rightarrow> string \<Rightarrow> nat \<Rightarrow> 't list \<Rightarrow> nat \<Rightarrow> ('t \<times> string) list \<Rightarrow> ('t \<times> string) list" where
  "name_loop fmt' out l [] counter times_names = times_names"
| "name_loop fmt' out l (t # ts) counter times_names =
     name_loop fmt' out l ts (counter + 1)
       (dict_set times_names t (replace out ''.frd'' (ext_of fmt' l counter)))"

text \<open>The loop of lines 84 to 90 over the items of \<open>times_names\<close>.\<close>

fun write_loop ::
  "('t, 'b) env \<Rightarrow> string \<Rightarrow> ('t, 'b) frd \<Rightarrow> ('t \<times> string) list \<Rightarrow> ('t, 'b) world \<Rightarrow> ('t, 'b) world" where
  "write_loop env fmt' p [] w = w"
| "write_loop env fmt' p ((t, name) # items) w =
     (let w1 = logging_info (''Writing '' @ relpath env name) w;
          w2 = (if fmt' = ''vtk'' then writeVTK env p name (Some t) w1 else w1);
          w3 = (if fmt' = ''vtu'' then writeVTU env p name (Some t) w2 else w2)
      in write_loop env fmt' p items w3)"

text \<open>\<^verbatim>\<open>times = sorted(set([b.value for b in p.result_blocks]))\<close>.\<close>

definition times_of :: "('t::linorder, 'b) frd \<Rightarrow> 't list" where
  "times_of p = sort (remdups (map rb_value (result_blocks p)))"

text \<open>
  Lines 66 to 94: at least one time increment. \<open>out\<close> is the value of the property
  \<^verbatim>\<open>output_file\<close>.
\<close>

definition write_increments ::
  "('t::linorder, 'b) env \<Rightarrow> Converter \<Rightarrow> ('t, 'b) frd \<Rightarrow> string \<Rightarrow> 't list \<Rightarrow>
     ('t, 'b) world \<Rightarrow> ('t, 'b) world" where
  "write_increments env self p out times' w =
     (let l = length times';
          w1 = logging_info
                 (str l @ '' time increment'' @ concat (replicate (min 1 (l - 1)) ''s'')) w;
          times_names = name_loop (fmt self) out l (sort times') 1 [];
          w2 = write_loop env (fmt self) p times_names w1
      in if l > 1 \<and> fmt self = ''vtu''
         then writePVD env (replace out ''.frd'' ''.pvd'') times_names w2
         else w2)"

text \<open>Lines 97 to 102: a mesh without result blocks.\<close>

definition write_untimed ::
  "('t, 'b) env \<Rightarrow> Converter \<Rightarrow> ('t, 'b) frd \<Rightarrow> string \<Rightarrow> ('t, 'b) world \<Rightarrow> ('t, 'b) world" where
  "write_untimed env self p out w =
     (let w1 = logging_warning ''No time increments!'' w;
          name = take (length out - 3) out @ fmt self;
          w2 = (if fmt self = ''vtk'' then writeVTK env p name None w1 else w1);
          w3 = (if fmt self = ''vtu'' then writeVTU env p name None w2 else w2)
      in w3)"

text \<open>Lines 62 to 104: what the driver does with the parse result.\<close>

definition convert ::
  "('t::linorder, 'b) env \<Rightarrow> Converter \<Rightarrow> ('t, 'b) frd \<Rightarrow> string \<Rightarrow> ('t, 'b) world \<Rightarrow> ('t, 'b) world" where
  "convert env self p out w =
     (if node_block p \<noteq> None \<and> elem_block p \<noteq> None then
        (let times' = times_of p; l = length times'
         in if l \<noteq> 0 then write_increments env self p out times' w
            else write_untimed env self p out w)
      else logging_warning ''File is empty!'' w)"

text \<open>
  \<^verbatim>\<open>Converter.run\<close>. The result is the exception that left the method, if any, and
  the world as it is then.
\<close>

definition run ::
  "('t::linorder, 'b) env \<Rightarrow> Converter \<Rightarrow> ('t, 'b) world \<Rightarrow> error option \<times> ('t, 'b) world" where
  "run env self w0 =
     (let out = output_file (abspath env) self;
          w1 = makedirs (output_folder (abspath env) self) w0
      in case shutil_copy (file_path self) out w1 of
           (Some e, w2) \<Rightarrow> (Some e, w2)
         | (None, w2) \<Rightarrow>
             (let w3 = logging_info (''Parsing '' @ relpath env out) w2
              in case FRDParser_Parse env out w3 of
                   (Inl e, w4) \<Rightarrow> (Some e, w4)
                 | (Inr p, w4) \<Rightarrow> (None, convert env self p out w4)))"

subsection \<open>The command line\<close>

text \<open>
  The block under \<^verbatim>\<open>if __name__ == '__main__'\<close>, after argparse has delivered the two
  positional arguments. \<^verbatim>\<open>clean.cache()\<close> is recorded as a call; an exception of the
  conversion leaves the block before it.
\<close>

definition wrong_format_msg :: "string \<Rightarrow> string" where
  "wrong_format_msg format = ''ERROR! Wrong format '' @ [CHR 0x22] @ format @ [CHR 0x22] @ ''. ''
      @ ''Choose one of: vtk, vtu.''"

definition main ::
  "('t::linorder, 'b) env \<Rightarrow> string \<Rightarrow> string \<Rightarrow> ('t, 'b) world \<Rightarrow> error option \<times> ('t, 'b) world" where
  "main env filename format w =
     (case (if format \<in> set [''vtk'', ''vtu'']
            then (case Converter_init filename format None of
                    Inl e \<Rightarrow> (Some e, w)
                  | Inr ccx2paraview \<Rightarrow> run env ccx2paraview w)
            else (None, emit (Print (wrong_format_msg format)) w)) of
        (Some e, w') \<Rightarrow> (Some e, w')
      | (None, w') \<Rightarrow> (None, emit CleanCache w'))"

subsection \<open>What a run leaves behind\<close>

text \<open>The calls of a run that started in \<open>w\<close> and ended in \<open>w'\<close>.\<close>

definition new_events :: "('t, 'b) world \<Rightarrow> ('t, 'b) world \<Rightarrow> ('t, 'b) event list" where
  "new_events w w' = drop (length (trace w)) (trace w')"

definition vtk_calls :: "('t, 'b) event list \<Rightarrow> (string \<times> 't option) list" where
  "vtk_calls evs = concat (map (\<lambda>e. case e of WriteVTK p n t \<Rightarrow> [(n, t)] | _ \<Rightarrow> []) evs)"

definition vtu_calls :: "('t, 'b) event list \<Rightarrow> (string \<times> 't option) list" where
  "vtu_calls evs = concat (map (\<lambda>e. case e of WriteVTU p n t \<Rightarrow> [(n, t)] | _ \<Rightarrow> []) evs)"

definition pvd_calls :: "('t, 'b) event list \<Rightarrow> (string \<times> ('t \<times> string) list) list" where
  "pvd_calls evs = concat (map (\<lambda>e. case e of WritePVD n d \<Rightarrow> [(n, d)] | _ \<Rightarrow> []) evs)"

definition warnings :: "('t, 'b) event list \<Rightarrow> string list" where
  "warnings evs = concat (map (\<lambda>e. case e of Log WARNING msg \<Rightarrow> [msg] | _ \<Rightarrow> []) evs)"

text \<open>The writer calls that carry a time value, and the parse results handed to the writers.\<close>

definition timed_calls :: "('t, 'b) event list \<Rightarrow> (string \<times> 't option) list" where
  "timed_calls evs = filter (\<lambda>c. snd c \<noteq> None) (concat (map (\<lambda>e. case e of
        WriteVTK p n t \<Rightarrow> [(n, t)] | WriteVTU p n t \<Rightarrow> [(n, t)] | _ \<Rightarrow> []) evs))"

definition writer_inputs :: "('t, 'b) event list \<Rightarrow> ('t, 'b) frd list" where
  "writer_inputs evs = concat (map (\<lambda>e. case e of
        WriteVTK p n t \<Rightarrow> [p] | WriteVTU p n t \<Rightarrow> [p] | _ \<Rightarrow> []) evs)"

definition parse_calls :: "('t, 'b) event list \<Rightarrow> string list" where
  "parse_calls evs = concat (map (\<lambda>e. case e of Parse path \<Rightarrow> [path] | _ \<Rightarrow> []) evs)"

text \<open>The files the writers of a trace write, with their contents, in the order of the calls.\<close>

definition writes :: "('t, 'b) env \<Rightarrow> ('t, 'b) event list \<Rightarrow> (string \<times> string) list" where
  "writes env evs = concat (map (\<lambda>e. case e of
        WriteVTK p n t \<Rightarrow> [(n, vtk_text env p t)]
      | WriteVTU p n t \<Rightarrow> [(n, vtu_text env p t)]
      | WritePVD n d \<Rightarrow> [(n, pvd_text env d)]
      | _ \<Rightarrow> []) evs)"

text \<open>\<^verbatim>\<open>old in s\<close> for strings.\<close>

fun contains :: "string \<Rightarrow> string \<Rightarrow> bool" where
  "contains [] old = (old = [])"
| "contains (c # cs) old = (startswith (c # cs) old \<or> contains cs old)"



definition empty_world :: "('t, 'b) world" where
  "empty_world = \<lparr>files = Map.empty, dirs = {}, trace = []\<rparr>"

text \<open>The calls of lines 54 to 59 and the world they leave when the copy succeeds.\<close>

definition stage_events :: "('t, 'b) env \<Rightarrow> Converter \<Rightarrow> ('t, 'b) event list" where
  "stage_events env self =
     [Makedirs (output_folder (abspath env) self),
      Copy (file_path self) (output_file (abspath env) self),
      Log INFO (''Parsing '' @ relpath env (output_file (abspath env) self)),
      Parse (output_file (abspath env) self)]"

definition staged :: "('t, 'b) env \<Rightarrow> Converter \<Rightarrow> string \<Rightarrow> ('t, 'b) world \<Rightarrow> ('t, 'b) world" where
  "staged env self content w =
     w\<lparr>dirs := insert (output_folder (abspath env) self) (dirs w),
       files := (files w)(output_file (abspath env) self \<mapsto> content),
       trace := trace w @ stage_events env self\<rparr>"

definition run_events :: "('t::linorder, 'b) env \<Rightarrow> Converter \<Rightarrow> ('t, 'b) world \<Rightarrow> ('t, 'b) event list" where
  "run_events env self w = new_events w (snd (run env self w))"

text \<open>
  \<open>effect env w evs w'\<close>: from \<open>w\<close> to \<open>w'\<close> the calls \<open>evs\<close> were made, no
  directory was created, and the files are those of \<open>w\<close> overwritten by what the writers
  among \<open>evs\<close> wrote, a later write over an earlier one.
\<close>

definition effect ::
  "('t, 'b) env \<Rightarrow> ('t, 'b) world \<Rightarrow> ('t, 'b) event list \<Rightarrow> ('t, 'b) world \<Rightarrow> bool" where
  "effect env w evs w' =
     (trace w' = trace w @ evs \<and> dirs w' = dirs w \<and>
      files w' = files w ++ map_of (rev (writes env evs)))"

text \<open>The calls of one round of the loop of lines 84 to 90.\<close>

definition item_events ::
  "('t, 'b) env \<Rightarrow> string \<Rightarrow> ('t, 'b) frd \<Rightarrow> 't \<times> string \<Rightarrow> ('t, 'b) event list" where
  "item_events env fmt' p item =
     Log INFO (''Writing '' @ relpath env (snd item)) #
     (if fmt' = ''vtk'' then [WriteVTK p (snd item) (Some (fst item))] else []) @
     (if fmt' = ''vtu'' then [WriteVTU p (snd item) (Some (fst item))] else [])"

text \<open>The calls of lines 62 to 104 for a parse result: they do not depend on the world.\<close>

definition convert_events ::
  "('t::linorder, 'b) env \<Rightarrow> Converter \<Rightarrow> ('t, 'b) frd \<Rightarrow> string \<Rightarrow> ('t, 'b) event list" where
  "convert_events env self p out = trace (convert env self p out empty_world)"

subsection \<open>Concrete inputs\<close>

text \<open>
  A parse result with a mesh and the given time values, one result block each, and an
  environment whose parser returns a fixed parse result; the writers render the time
  value they are given.
\<close>

definition frd_of :: "nat list \<Rightarrow> (nat, unit) frd" where
  "frd_of ts = \<lparr>node_block = Some (), elem_block = Some (),
      result_blocks = map (\<lambda>t. \<lparr>rb_value = t, rb_data = ()\<rparr>) ts\<rparr>"

definition frd_empty :: "(nat, unit) frd" where
  "frd_empty = \<lparr>node_block = None, elem_block = Some (), result_blocks = []\<rparr>"

definition env_of :: "(nat, unit) frd \<Rightarrow> (nat, unit) env" where
  "env_of p = \<lparr>abspath = (\<lambda>x. x), relpath = (\<lambda>x. x), parse_frd = (\<lambda>content. Inr p),
      vtk_text = (\<lambda>p t. ''vtk '' @ (case t of None \<Rightarrow> ''-'' | Some n \<Rightarrow> str n)),
      vtu_text = (\<lambda>p t. ''vtu '' @ (case t of None \<Rightarrow> ''-'' | Some n \<Rightarrow> str n)),
      pvd_text = (\<lambda>d. ''pvd '' @ concat (map snd d))\<rparr>"

definition world_of :: "string \<Rightarrow> (nat, unit) world" where
  "world_of path = \<lparr>files = [path \<mapsto> ''FRD''], dirs = {}, trace = []\<rparr>"

definition conv :: "string \<Rightarrow> string \<Rightarrow> Converter" where
  "conv path format = projr (Converter_init path format None)"

section \<open>Auxiliary facts\<close>

subsection \<open>Decimal numerals and replacement in strings\<close>















lemma contains_Nil [simp]: "contains s []"
  by (induction s) (simp_all add: startswith_def)

lemma replace_id: "\<not> contains s old \<Longrightarrow> replace s old new = s"
proof (induction s)
  case Nil
  then show ?case by (simp add: replace.simps [of "[]"])
next
  case (Cons c cs)
  then have "old \<noteq> []" "\<not> startswith (c # cs) old" "\<not> contains cs old"
    by auto
  then show ?case
    using Cons.IH by (simp add: replace.simps [of "c # cs"])
qed








subsection \<open>The world after each step\<close>

lemma emit_simps [simp]:
  "trace (emit e w) = trace w @ [e]" "files (emit e w) = files w" "dirs (emit e w) = dirs w"
  by (simp_all add: emit_def)

lemma writes_simps [simp]:
  "writes env [] = []"
  "writes env (xs @ ys) = writes env xs @ writes env ys"
  "writes env (Log lv msg # xs) = writes env xs"
  "writes env (WriteVTK p n t # xs) = (n, vtk_text env p t) # writes env xs"
  "writes env (WriteVTU p n t # xs) = (n, vtu_text env p t) # writes env xs"
  "writes env (WritePVD n d # xs) = (n, pvd_text env d) # writes env xs"
  by (simp_all add: writes_def)

lemma effect_refl: "effect env w [] w"
  by (simp add: effect_def)

lemma effect_trans:
  "effect env w evs1 w1 \<Longrightarrow> effect env w1 evs2 w2 \<Longrightarrow> effect env w (evs1 @ evs2) w2"
  by (simp add: effect_def)

lemma effect_log:
  "effect env w [Log INFO msg] (logging_info msg w)"
  "effect env w [Log WARNING msg] (logging_warning msg w)"
  by (simp_all add: effect_def logging_info_def logging_warning_def)

lemma effect_writers:
  "effect env w [WriteVTK p n t] (writeVTK env p n t w)"
  "effect env w [WriteVTU p n t] (writeVTU env p n t w)"
  "effect env w [WritePVD n d] (writePVD env n d w)"
  by (simp_all add: effect_def writeVTK_def writeVTU_def writePVD_def map_add_def fun_eq_iff)

lemma effect_item:
  "effect env w (item_events env f p (t, n))
     (let w1 = logging_info (''Writing '' @ relpath env n) w;
          w2 = (if f = ''vtk'' then writeVTK env p n (Some t) w1 else w1);
          w3 = (if f = ''vtu'' then writeVTU env p n (Some t) w2 else w2)
      in w3)"
proof -
  let ?w1 = "logging_info (''Writing '' @ relpath env n) w"
  let ?w2 = "if f = ''vtk'' then writeVTK env p n (Some t) ?w1 else ?w1"
  let ?w3 = "if f = ''vtu'' then writeVTU env p n (Some t) ?w2 else ?w2"
  have 1: "effect env w [Log INFO (''Writing '' @ relpath env n)] ?w1"
    by (rule effect_log)
  have 2: "effect env ?w1 (if f = ''vtk'' then [WriteVTK p n (Some t)] else []) ?w2"
    by (simp add: effect_writers effect_refl)
  have 3: "effect env ?w2 (if f = ''vtu'' then [WriteVTU p n (Some t)] else []) ?w3"
    by (simp add: effect_writers effect_refl)
  have "effect env w ([Log INFO (''Writing '' @ relpath env n)] @
      (if f = ''vtk'' then [WriteVTK p n (Some t)] else []) @
      (if f = ''vtu'' then [WriteVTU p n (Some t)] else [])) ?w3"
    using effect_trans [OF 1 effect_trans [OF 2 3]] .
  then show ?thesis
    by (cases "f = ''vtk''"; cases "f = ''vtu''"; simp add: item_events_def Let_def)
qed

lemma effect_write_loop:
  "effect env w (concat (map (item_events env f p) items)) (write_loop env f p items w)"
proof (induction items arbitrary: w)
  case Nil
  show ?case by (simp add: effect_refl)
next
  case (Cons item items)
  obtain t n where item: "item = (t, n)" by (cases item)
  let ?w3 = "let w1 = logging_info (''Writing '' @ relpath env n) w;
          w2 = (if f = ''vtk'' then writeVTK env p n (Some t) w1 else w1);
          w3 = (if f = ''vtu'' then writeVTU env p n (Some t) w2 else w2)
      in w3"
  have "effect env w (item_events env f p (t, n) @ concat (map (item_events env f p) items))
          (write_loop env f p items ?w3)"
    by (rule effect_trans [OF effect_item Cons.IH])
  then show ?case
    by (simp add: item Let_def)
qed

lemma dict_set_fresh: "k \<notin> fst ` set d \<Longrightarrow> dict_set d k v = d @ [(k, v)]"
  by (induction d) auto

lemma name_loop_distinct:
  "distinct ts \<Longrightarrow> set ts \<inter> fst ` set d = {} \<Longrightarrow>
   name_loop f out l ts c d =
     d @ zip ts (map (\<lambda>i. replace out ''.frd'' (ext_of f l i)) [c..<c + length ts])"
proof (induction ts arbitrary: c d)
  case Nil
  then show ?case by simp
next
  case (Cons t ts)
  have fresh: "t \<notin> fst ` set d" using Cons.prems by auto
  have disj: "set ts \<inter> fst ` set (d @ [(t, replace out ''.frd'' (ext_of f l c))]) = {}"
    using Cons.prems by auto
  have upt: "[c..<Suc (c + length ts)] = c # [Suc c..<Suc (c + length ts)]"
    by (rule upt_conv_Cons) simp
  show ?case
    using Cons.IH [OF _ disj, of "c + 1"] Cons.prems
    by (simp add: dict_set_fresh [OF fresh] upt del: upt_Suc)
qed

lemma times_of_props:
  "sorted (times_of p)" "distinct (times_of p)"
  "set (times_of p) = rb_value ` set (result_blocks p)"
  "sort (times_of p) = times_of p"
  "length (times_of p) = card (rb_value ` set (result_blocks p))"
proof -
  show "sorted (times_of p)" "distinct (times_of p)"
    "set (times_of p) = rb_value ` set (result_blocks p)"
    by (simp_all add: times_of_def)
  then show "sort (times_of p) = times_of p"
    by (simp add: sort_key_id_if_sorted)
  have "length (times_of p) = length (remdups (map rb_value (result_blocks p)))"
    by (simp add: times_of_def)
  also have "\<dots> = card (set (map rb_value (result_blocks p)))"
    by (simp add: length_remdups_card_conv)
  finally show "length (times_of p) = card (rb_value ` set (result_blocks p))"
    by simp
qed

lemma run_staged:
  assumes "files w (file_path self) = Some d"
    and "file_path self \<noteq> output_file (abspath env) self"
  shows "run env self w =
     (case parse_frd env d of
        Inl e \<Rightarrow> (Some e, staged env self d w)
      | Inr p \<Rightarrow> (None, convert env self p (output_file (abspath env) self) (staged env self d w)))"
  using assms
  by (simp add: run_def Let_def makedirs_def shutil_copy_def logging_info_def
      FRDParser_Parse_def staged_def stage_events_def emit_def split: sum.splits)

lemma effect_write_untimed:
  "effect env w
     (Log WARNING ''No time increments!'' #
      (if fmt self = ''vtk'' then [WriteVTK p (take (length out - 3) out @ fmt self) None] else []) @
      (if fmt self = ''vtu'' then [WriteVTU p (take (length out - 3) out @ fmt self) None] else []))
     (write_untimed env self p out w)"
proof -
  let ?n = "take (length out - 3) out @ fmt self"
  let ?w1 = "logging_warning ''No time increments!'' w"
  let ?w2 = "if fmt self = ''vtk'' then writeVTK env p ?n None ?w1 else ?w1"
  let ?w3 = "if fmt self = ''vtu'' then writeVTU env p ?n None ?w2 else ?w2"
  have 1: "effect env w [Log WARNING ''No time increments!''] ?w1"
    by (rule effect_log)
  have 2: "effect env ?w1 (if fmt self = ''vtk'' then [WriteVTK p ?n None] else []) ?w2"
    by (simp add: effect_writers effect_refl)
  have 3: "effect env ?w2 (if fmt self = ''vtu'' then [WriteVTU p ?n None] else []) ?w3"
    by (simp add: effect_writers effect_refl)
  have "effect env w ([Log WARNING ''No time increments!''] @
      (if fmt self = ''vtk'' then [WriteVTK p ?n None] else []) @
      (if fmt self = ''vtu'' then [WriteVTU p ?n None] else [])) ?w3"
    using effect_trans [OF 1 effect_trans [OF 2 3]] .
  then show ?thesis
    by (cases "fmt self = ''vtk''"; cases "fmt self = ''vtu''"; simp add: write_untimed_def Let_def)
qed

lemma effect_write_increments:
  "effect env w
     (Log INFO (str (length ts) @ '' time increment'' @ concat (replicate (min 1 (length ts - 1)) ''s'')) #
      concat (map (item_events env (fmt self) p) (name_loop (fmt self) out (length ts) (sort ts) 1 [])) @
      (if length ts > 1 \<and> fmt self = ''vtu''
       then [WritePVD (replace out ''.frd'' ''.pvd'') (name_loop (fmt self) out (length ts) (sort ts) 1 [])]
       else []))
     (write_increments env self p out ts w)"
proof -
  let ?msg = "str (length ts) @ '' time increment'' @ concat (replicate (min 1 (length ts - 1)) ''s'')"
  let ?items = "name_loop (fmt self) out (length ts) (sort ts) 1 []"
  let ?w1 = "logging_info ?msg w"
  let ?w2 = "write_loop env (fmt self) p ?items ?w1"
  let ?pvd = "if length ts > 1 \<and> fmt self = ''vtu'' then [WritePVD (replace out ''.frd'' ''.pvd'') ?items] else []"
  let ?w3 = "if length ts > 1 \<and> fmt self = ''vtu'' then writePVD env (replace out ''.frd'' ''.pvd'') ?items ?w2 else ?w2"
  have 1: "effect env w [Log INFO ?msg] ?w1"
    by (rule effect_log)
  have 2: "effect env ?w1 (concat (map (item_events env (fmt self) p) ?items)) ?w2"
    by (rule effect_write_loop)
  have 3: "effect env ?w2 ?pvd ?w3"
    by (simp add: effect_writers effect_refl)
  have "effect env w ([Log INFO ?msg] @ concat (map (item_events env (fmt self) p) ?items) @ ?pvd) ?w3"
    using effect_trans [OF 1 effect_trans [OF 2 3]] .
  moreover have "write_increments env self p out ts w = ?w3"
    by (simp add: write_increments_def Let_def)
  ultimately show ?thesis
    by simp
qed

lemma run_effect:
  assumes "files w (file_path self) = Some d"
    and "file_path self \<noteq> output_file (abspath env) self"
    and "parse_frd env d = Inr p"
    and "effect env (staged env self d w) evs
           (convert env self p (output_file (abspath env) self) (staged env self d w))"
  shows "fst (run env self w) = None"
    and "run_events env self w = stage_events env self @ evs"
    and "files (snd (run env self w)) =
           (files w)(output_file (abspath env) self \<mapsto> d) ++ map_of (rev (writes env evs))"
    and "dirs (snd (run env self w)) = insert (output_folder (abspath env) self) (dirs w)"
  using assms(4)
  by (simp_all add: run_staged [OF assms(1,2)] assms(3) effect_def run_events_def
      new_events_def staged_def)

lemma vtk_calls_simps [simp]:
  "vtk_calls [] = []" "vtk_calls (xs @ ys) = vtk_calls xs @ vtk_calls ys"
  "vtk_calls (e # xs) = (case e of WriteVTK p n t \<Rightarrow> [(n, t)] | _ \<Rightarrow> []) @ vtk_calls xs"
  by (simp_all add: vtk_calls_def)

lemma vtu_calls_simps [simp]:
  "vtu_calls [] = []" "vtu_calls (xs @ ys) = vtu_calls xs @ vtu_calls ys"
  "vtu_calls (e # xs) = (case e of WriteVTU p n t \<Rightarrow> [(n, t)] | _ \<Rightarrow> []) @ vtu_calls xs"
  by (simp_all add: vtu_calls_def)

lemma pvd_calls_simps [simp]:
  "pvd_calls [] = []" "pvd_calls (xs @ ys) = pvd_calls xs @ pvd_calls ys"
  "pvd_calls (e # xs) = (case e of WritePVD n d \<Rightarrow> [(n, d)] | _ \<Rightarrow> []) @ pvd_calls xs"
  by (simp_all add: pvd_calls_def)

lemma warnings_simps [simp]:
  "warnings [] = []" "warnings (xs @ ys) = warnings xs @ warnings ys"
  "warnings (e # xs) = (case e of Log WARNING msg \<Rightarrow> [msg] | _ \<Rightarrow> []) @ warnings xs"
  by (simp_all add: warnings_def)

lemma parse_calls_simps [simp]:
  "parse_calls [] = []" "parse_calls (xs @ ys) = parse_calls xs @ parse_calls ys"
  "parse_calls (e # xs) = (case e of Parse path \<Rightarrow> [path] | _ \<Rightarrow> []) @ parse_calls xs"
  by (simp_all add: parse_calls_def)

lemma stage_events_calls [simp]:
  "vtk_calls (stage_events env self) = []" "vtu_calls (stage_events env self) = []"
  "pvd_calls (stage_events env self) = []" "warnings (stage_events env self) = []"
  "parse_calls (stage_events env self) = [output_file (abspath env) self]"
  "writes env (stage_events env self) = []"
  by (simp_all add: stage_events_def writes_def)

lemmas eval_defs = conv_def Converter_init_def os_path_split_def os_path_dirname_def
  os_path_join_def rstrip_sep_def startswith_def endswith_def output_file_def
  output_folder_def world_of_def env_of_def frd_of_def frd_empty_def Let_def

subsection \<open>The calls of a run\<close>

lemma item_events_calls [simp]:
  "parse_calls (concat (map (item_events env f p) items)) = []"
  "pvd_calls (concat (map (item_events env f p) items)) = []"
  "warnings (concat (map (item_events env f p) items)) = []"
  by (induction items) (simp_all add: item_events_def)

lemma convert_effect:
  obtains evs where "effect env w evs (convert env self p out w)" and "parse_calls evs = []"
    and "fmt self = ''vtk'' \<Longrightarrow> pvd_calls evs = []"
proof (cases "node_block p \<noteq> None \<and> elem_block p \<noteq> None")
  case False
  then have "convert env self p out w = logging_warning ''File is empty!'' w"
    by (auto simp: convert_def)
  then have "effect env w [Log WARNING ''File is empty!''] (convert env self p out w)"
    by (simp add: effect_log)
  then show ?thesis
    by (rule that) simp_all
next
  case mesh: True
  show ?thesis
  proof (cases "length (times_of p) = 0")
    case True
    then have "convert env self p out w = write_untimed env self p out w"
      using mesh by (simp add: convert_def)
    then show ?thesis
      using effect_write_untimed [of env w self p out]
      by (intro that [of "Log WARNING ''No time increments!'' #
      (if fmt self = ''vtk'' then [WriteVTK p (take (length out - 3) out @ fmt self) None] else []) @
      (if fmt self = ''vtu'' then [WriteVTU p (take (length out - 3) out @ fmt self) None] else [])"])
        simp_all
  next
    case False
    then have "convert env self p out w = write_increments env self p out (times_of p) w"
      using mesh by (simp add: convert_def Let_def)
    then show ?thesis
      using effect_write_increments [of env w "times_of p" self p out]
      by (intro that [of "Log INFO (str (length (times_of p)) @ '' time increment'' @
           concat (replicate (min 1 (length (times_of p) - 1)) ''s'')) #
      concat (map (item_events env (fmt self) p)
         (name_loop (fmt self) out (length (times_of p)) (sort (times_of p)) 1 [])) @
      (if length (times_of p) > 1 \<and> fmt self = ''vtu''
       then [WritePVD (replace out ''.frd'' ''.pvd'')
           (name_loop (fmt self) out (length (times_of p)) (sort (times_of p)) 1 [])]
       else [])"])
        simp_all
  qed
qed

lemma run_cases:
  obtains (copy_failed) e where
      "run env self w = (Some e, emit (Copy (file_path self) (output_file (abspath env) self))
          (makedirs (output_folder (abspath env) self) w))"
  | (parse_failed) d e where "files w (file_path self) = Some d"
      "file_path self \<noteq> output_file (abspath env) self"
      "parse_frd env d = Inl e" "run env self w = (Some e, staged env self d w)"
  | (converted) d p where "files w (file_path self) = Some d"
      "file_path self \<noteq> output_file (abspath env) self"
      "parse_frd env d = Inr p"
      "run env self w = (None, convert env self p (output_file (abspath env) self) (staged env self d w))"
proof (cases "file_path self = output_file (abspath env) self")
  case True
  then have "run env self w = (Some SameFileError,
      emit (Copy (file_path self) (output_file (abspath env) self))
          (makedirs (output_folder (abspath env) self) w))"
    by (simp add: run_def shutil_copy_def Let_def)
  then show ?thesis by (rule copy_failed)
next
  case ne: False
  show ?thesis
  proof (cases "files w (file_path self)")
    case None
    then have "run env self w = (Some FileNotFoundError,
        emit (Copy (file_path self) (output_file (abspath env) self))
          (makedirs (output_folder (abspath env) self) w))"
      using ne by (simp add: run_def shutil_copy_def Let_def makedirs_def)
    then show ?thesis by (rule copy_failed)
  next
    case (Some d)
    show ?thesis
    proof (cases "parse_frd env d")
      case (Inl e)
      then show ?thesis
        using run_staged [OF Some ne] by (intro parse_failed [OF Some ne Inl]) simp
    next
      case (Inr p)
      then show ?thesis
        using run_staged [OF Some ne] by (intro converted [OF Some ne Inr]) simp
    qed
  qed
qed

lemma run_trace: "trace (snd (run env self w)) = trace w @ run_events env self w"
proof (cases rule: run_cases [of env self w])
  case (copy_failed e)
  then show ?thesis
    by (simp add: run_events_def new_events_def makedirs_def)
next
  case (parse_failed d e)
  then show ?thesis
    by (simp add: run_events_def new_events_def staged_def)
next
  case (converted d p)
  obtain evs where "effect env (staged env self d w) evs
      (convert env self p (output_file (abspath env) self) (staged env self d w))"
    by (rule convert_effect)
  then show ?thesis
    using converted by (simp add: run_events_def new_events_def staged_def effect_def)
qed

lemma single_time:
  assumes "rb_value ` set (result_blocks p) = {t}"
  shows "times_of p = [t]"
proof -
  have "length (times_of p) = 1" "set (times_of p) = {t}"
    using assms by (simp_all add: times_of_props)
  then show ?thesis
    by (cases "times_of p") auto
qed

subsection \<open>The names and the calls of the time increments\<close>

lemma times_names_eq:
  "name_loop f out l (sort (times_of p)) 1 [] =
     zip (times_of p)
       (map (\<lambda>i. replace out ''.frd'' (ext_of f l i)) [1..<Suc (length (times_of p))])"
  using name_loop_distinct [of "times_of p" "[]" f out l 1]
  by (simp add: times_of_props)

lemma effect_convert_timed:
  assumes "node_block p \<noteq> None" and "elem_block p \<noteq> None" and "times_of p \<noteq> []"
    and "l = length (times_of p)"
    and "items = zip (times_of p) (map (\<lambda>i. replace out ''.frd'' (ext_of (fmt self) l i)) [1..<Suc l])"
  shows "effect env w
     (Log INFO (str l @ '' time increment'' @ concat (replicate (min 1 (l - 1)) ''s'')) #
      concat (map (item_events env (fmt self) p) items) @
      (if l > 1 \<and> fmt self = ''vtu'' then [WritePVD (replace out ''.frd'' ''.pvd'') items] else []))
     (convert env self p out w)"
proof -
  have c: "convert env self p out w = write_increments env self p out (times_of p) w"
    using assms(1-3) by (simp add: convert_def Let_def)
  have i: "name_loop (fmt self) out (length (times_of p)) (sort (times_of p)) 1 [] = items"
    unfolding assms(5) assms(4) by (rule times_names_eq)
  show ?thesis
    using effect_write_increments [of env w "times_of p" self p out]
    unfolding c i assms(4) .
qed

lemma zip_swap:
  "length ts = length ns \<Longrightarrow> map (\<lambda>item. (snd item, g (fst item))) (zip ts ns) = zip ns (map g ts)"
  by (induction ts ns rule: list_induct2) simp_all

lemma item_events_vtu [simp]:
  "vtu_calls (concat (map (item_events env ''vtu'' p) items)) =
     map (\<lambda>item. (snd item, Some (fst item))) items"
  "vtk_calls (concat (map (item_events env ''vtu'' p) items)) = []"
  "writes env (concat (map (item_events env ''vtu'' p) items)) =
     map (\<lambda>item. (snd item, vtu_text env p (Some (fst item)))) items"
  by (induction items) (simp_all add: item_events_def)

lemma item_events_vtk [simp]:
  "vtk_calls (concat (map (item_events env ''vtk'' p) items)) =
     map (\<lambda>item. (snd item, Some (fst item))) items"
  "vtu_calls (concat (map (item_events env ''vtk'' p) items)) = []"
  "writes env (concat (map (item_events env ''vtk'' p) items)) =
     map (\<lambda>item. (snd item, vtk_text env p (Some (fst item)))) items"
  by (induction items) (simp_all add: item_events_def)






lemma timed_calls_simps [simp]:
  "timed_calls [] = []" "timed_calls (xs @ ys) = timed_calls xs @ timed_calls ys"
  "timed_calls (e # xs) = (case e of WriteVTK p n t \<Rightarrow> (if t \<noteq> None then [(n, t)] else [])
      | WriteVTU p n t \<Rightarrow> (if t \<noteq> None then [(n, t)] else []) | _ \<Rightarrow> []) @ timed_calls xs"
  by (simp_all add: timed_calls_def split: event.splits)

lemma writer_inputs_simps [simp]:
  "writer_inputs [] = []" "writer_inputs (xs @ ys) = writer_inputs xs @ writer_inputs ys"
  "writer_inputs (e # xs) = (case e of WriteVTK p n t \<Rightarrow> [p] | WriteVTU p n t \<Rightarrow> [p] | _ \<Rightarrow> [])
      @ writer_inputs xs"
  by (simp_all add: writer_inputs_def)

lemma stage_events_timed [simp]:
  "timed_calls (stage_events env self) = []" "writer_inputs (stage_events env self) = []"
  by (simp_all add: stage_events_def)

lemma item_events_timed:
  "f = ''vtk'' \<or> f = ''vtu'' \<Longrightarrow>
   timed_calls (concat (map (item_events env f p) items)) =
     map (\<lambda>item. (snd item, Some (fst item))) items"
  "f = ''vtk'' \<or> f = ''vtu'' \<Longrightarrow>
   writer_inputs (concat (map (item_events env f p) items)) = map (\<lambda>item. p) items"
  by (induction items) (auto simp: item_events_def)

lemma run_timed:
  assumes "files w (file_path self) = Some d"
    and "file_path self \<noteq> output_file (abspath env) self"
    and "parse_frd env d = Inr p"
    and "node_block p \<noteq> None" and "elem_block p \<noteq> None"
    and "times_of p \<noteq> []" and "l = length (times_of p)"
    and "out = output_file (abspath env) self"
    and "names = map (\<lambda>i. replace out ''.frd'' (ext_of (fmt self) l i)) [1..<Suc l]"
  shows "fst (run env self w) = None"
    and "run_events env self w = stage_events env self @
      Log INFO (str l @ '' time increment'' @ concat (replicate (min 1 (l - 1)) ''s'')) #
      concat (map (item_events env (fmt self) p) (zip (times_of p) names)) @
      (if l > 1 \<and> fmt self = ''vtu''
       then [WritePVD (replace out ''.frd'' ''.pvd'') (zip (times_of p) names)] else [])"
proof -
  have eff: "effect env (staged env self d w)
     (Log INFO (str l @ '' time increment'' @ concat (replicate (min 1 (l - 1)) ''s'')) #
      concat (map (item_events env (fmt self) p) (zip (times_of p) names)) @
      (if l > 1 \<and> fmt self = ''vtu''
       then [WritePVD (replace out ''.frd'' ''.pvd'') (zip (times_of p) names)] else []))
     (convert env self p out (staged env self d w))"
    using assms(4-7) by (rule effect_convert_timed) (simp add: assms(9))
  note r = run_effect [OF assms(1-3) eff [unfolded assms(8)], folded assms(8)]
  show "fst (run env self w) = None"
    by (rule r(1))
  show "run_events env self w = stage_events env self @
      Log INFO (str l @ '' time increment'' @ concat (replicate (min 1 (l - 1)) ''s'')) #
      concat (map (item_events env (fmt self) p) (zip (times_of p) names)) @
      (if l > 1 \<and> fmt self = ''vtu''
       then [WritePVD (replace out ''.frd'' ''.pvd'') (zip (times_of p) names)] else [])"
    by (rule r(2))
qed



lemma convert_uniform:
  "\<exists>evs. \<forall>w. effect env w evs (convert env self p out w)"
proof (cases "node_block p \<noteq> None \<and> elem_block p \<noteq> None")
  case False
  then have "convert env self p out w = logging_warning ''File is empty!'' w" for w
    by (auto simp: convert_def)
  then have "effect env w [Log WARNING ''File is empty!''] (convert env self p out w)" for w
    by (simp add: effect_log)
  then show ?thesis
    by blast
next
  case mesh: True
  show ?thesis
  proof (cases "length (times_of p) = 0")
    case True
    then have "convert env self p out w = write_untimed env self p out w" for w
      using mesh by (simp add: convert_def)
    then have "effect env w (Log WARNING ''No time increments!'' #
      (if fmt self = ''vtk'' then [WriteVTK p (take (length out - 3) out @ fmt self) None] else []) @
      (if fmt self = ''vtu'' then [WriteVTU p (take (length out - 3) out @ fmt self) None] else []))
      (convert env self p out w)" for w
      using effect_write_untimed [of env w self p out] by simp
    then show ?thesis
      by blast
  next
    case False
    then have "convert env self p out w = write_increments env self p out (times_of p) w" for w
      using mesh by (simp add: convert_def Let_def)
    then have "effect env w (Log INFO (str (length (times_of p)) @ '' time increment'' @
           concat (replicate (min 1 (length (times_of p) - 1)) ''s'')) #
      concat (map (item_events env (fmt self) p)
         (name_loop (fmt self) out (length (times_of p)) (sort (times_of p)) 1 [])) @
      (if length (times_of p) > 1 \<and> fmt self = ''vtu''
       then [WritePVD (replace out ''.frd'' ''.pvd'')
           (name_loop (fmt self) out (length (times_of p)) (sort (times_of p)) 1 [])]
       else [])) (convert env self p out w)" for w
      using effect_write_increments [of env w "times_of p" self p out] by simp
    then show ?thesis
      by blast
  qed
qed

lemma effect_convert_events:
  "effect env w (convert_events env self p out) (convert env self p out w)"
proof -
  obtain evs where e: "\<And>w. effect env w evs (convert env self p out w)"
    using convert_uniform [of env self p out] by blast
  have "convert_events env self p out = evs"
    using e [of empty_world] by (simp add: convert_events_def effect_def empty_world_def)
  then show ?thesis
    using e by simp
qed

subsection \<open>Inputs with the extension frd\<close>

text \<open>
  For an input whose extension is \<^verbatim>\<open>frd\<close> the staged path ends in \<^verbatim>\<open>.frd\<close>, and so
  contains it.
\<close>

lemma output_file_endswith: "endswith (output_file a self) (''.'' @ ext self)"
  by (simp add: output_file_def os_path_join_def endswith_def)

lemma endswith_contains:
  assumes "endswith s old"
  shows "contains s old"
proof -
  have s: "s = take (length s - length old) s @ old"
    using assms append_take_drop_id [of "length s - length old" s] by (simp add: endswith_def)
  have "contains (a @ old) old" for a
  proof (induction a)
    case Nil
    show ?case by (cases old) (simp_all add: startswith_def)
  next
    case (Cons c a)
    then show ?case by simp
  qed
  then show ?thesis
    using s by metis
qed

lemma frd_input_staged_path:
  assumes "ext self = ''frd''"
  shows "endswith (output_file a self) ''.frd''" and "contains (output_file a self) ''.frd''"
proof -
  show e: "endswith (output_file a self) ''.frd''"
    using output_file_endswith [of a self] assms by simp
  show "contains (output_file a self) ''.frd''"
    using e by (rule endswith_contains)
qed

section \<open>The claims\<close>

subsection \<open>An empty mesh\<close>

text \<open>
  C3: when the parse yields no node block or no element block, the run returns normally,
  logs the one warning \<^verbatim>\<open>File is empty!\<close>, calls no writer, and leaves the files as they
  were but for the staged copy of the input.
\<close>
theorem empty_mesh_no_output:
  assumes "files w (file_path self) = Some d"
    and "file_path self \<noteq> output_file (abspath env) self"
    and "parse_frd env d = Inr p"
    and "node_block p = None \<or> elem_block p = None"
  shows "fst (run env self w) = None \<and>
         run_events env self w = stage_events env self @ [Log WARNING ''File is empty!''] \<and>
         warnings (run_events env self w) = [''File is empty!''] \<and>
         vtk_calls (run_events env self w) = [] \<and>
         vtu_calls (run_events env self w) = [] \<and>
         pvd_calls (run_events env self w) = [] \<and>
         files (snd (run env self w)) = (files w)(output_file (abspath env) self \<mapsto> d)"
proof -
  let ?out = "output_file (abspath env) self"
  have "convert env self p ?out (staged env self d w) =
          logging_warning ''File is empty!'' (staged env self d w)"
    using assms(4) by (auto simp: convert_def)
  then have eff: "effect env (staged env self d w) [Log WARNING ''File is empty!'']
          (convert env self p ?out (staged env self d w))"
    by (simp add: effect_log)
  note r = run_effect [OF assms(1-3) eff]
  show ?thesis
    by (simp add: r)
qed

theorem empty_mesh_no_output_witness:
  "files (world_of ''m.frd'') (file_path (conv ''m.frd'' ''vtu'')) = Some ''FRD'' \<and>
   parse_frd (env_of frd_empty) ''FRD'' = Inr frd_empty \<and>
   node_block frd_empty = None \<and>
   fst (run (env_of frd_empty) (conv ''m.frd'' ''vtu'') (world_of ''m.frd'')) = None \<and>
   warnings (run_events (env_of frd_empty) (conv ''m.frd'' ''vtu'') (world_of ''m.frd''))
     = [''File is empty!''] \<and>
   vtu_calls (run_events (env_of frd_empty) (conv ''m.frd'' ''vtu'') (world_of ''m.frd'')) = [] \<and>
   files (snd (run (env_of frd_empty) (conv ''m.frd'' ''vtu'') (world_of ''m.frd'')))
     = (files (world_of ''m.frd''))(''results/m.frd'' \<mapsto> ''FRD'')"
  using empty_mesh_no_output [of "world_of ''m.frd''" "conv ''m.frd'' ''vtu''" "''FRD''"
      "env_of frd_empty" frd_empty]
  by (simp add: eval_defs)

subsection \<open>A mesh without result blocks\<close>

text \<open>
  C2: when the parse yields a node block and an element block but no result block, and
  the format is one of the two the command line admits, the run returns normally, logs
  the one warning \<^verbatim>\<open>No time increments!\<close>, and calls the writer of the format exactly
  once, with no time value, on the staged path with its last three characters replaced
  by the format; no other writer is called. The file holds what the writer renders from
  a parse result without result blocks.
\<close>
theorem no_increments_single_output:
  assumes "files w (file_path self) = Some d"
    and "file_path self \<noteq> output_file (abspath env) self"
    and "parse_frd env d = Inr p"
    and "node_block p \<noteq> None" and "elem_block p \<noteq> None"
    and "result_blocks p = []"
    and "fmt self = ''vtk'' \<or> fmt self = ''vtu''"
    and "name = take (length (output_file (abspath env) self) - 3) (output_file (abspath env) self) @ fmt self"
  shows "fst (run env self w) = None \<and>
         warnings (run_events env self w) = [''No time increments!''] \<and>
         vtk_calls (run_events env self w) = (if fmt self = ''vtk'' then [(name, None)] else []) \<and>
         vtu_calls (run_events env self w) = (if fmt self = ''vtu'' then [(name, None)] else []) \<and>
         pvd_calls (run_events env self w) = [] \<and>
         files (snd (run env self w)) =
           (files w)(output_file (abspath env) self \<mapsto> d,
                     name \<mapsto> (if fmt self = ''vtk'' then vtk_text env p None else vtu_text env p None))"
proof -
  let ?out = "output_file (abspath env) self"
  have "times_of p = []"
    using assms(6) by (simp add: times_of_def)
  then have ceq: "convert env self p ?out (staged env self d w) =
          write_untimed env self p ?out (staged env self d w)"
    using assms(4,5) by (simp add: convert_def)
  have eff: "effect env (staged env self d w)
     (Log WARNING ''No time increments!'' #
      (if fmt self = ''vtk'' then [WriteVTK p name None] else []) @
      (if fmt self = ''vtu'' then [WriteVTU p name None] else []))
     (convert env self p ?out (staged env self d w))"
    unfolding ceq assms(8) by (rule effect_write_untimed)
  note r = run_effect [OF assms(1-3) eff]
  show ?thesis
    using assms(7) by (auto simp: r)
qed

theorem no_increments_single_output_witness:
  "files (world_of ''m.frd'') (file_path (conv ''m.frd'' ''vtu'')) = Some ''FRD'' \<and>
   file_path (conv ''m.frd'' ''vtu'') \<noteq> output_file (abspath (env_of (frd_of []))) (conv ''m.frd'' ''vtu'') \<and>
   result_blocks (frd_of []) = [] \<and>
   fst (run (env_of (frd_of [])) (conv ''m.frd'' ''vtu'') (world_of ''m.frd'')) = None \<and>
   warnings (run_events (env_of (frd_of [])) (conv ''m.frd'' ''vtu'') (world_of ''m.frd''))
     = [''No time increments!''] \<and>
   vtu_calls (run_events (env_of (frd_of [])) (conv ''m.frd'' ''vtu'') (world_of ''m.frd''))
     = [(''results/m.vtu'', None)] \<and>
   vtk_calls (run_events (env_of (frd_of [])) (conv ''m.frd'' ''vtu'') (world_of ''m.frd'')) = [] \<and>
   files (snd (run (env_of (frd_of [])) (conv ''m.frd'' ''vtu'') (world_of ''m.frd'')))
     = (files (world_of ''m.frd''))(''results/m.frd'' \<mapsto> ''FRD'', ''results/m.vtu'' \<mapsto> ''vtu -'')"
  using no_increments_single_output [of "world_of ''m.frd''" "conv ''m.frd'' ''vtu''" "''FRD''"
      "env_of (frd_of [])" "frd_of []" "''results/m.vtu''"]
  by (simp add: eval_defs)

subsection \<open>The command line\<close>

text \<open>
  C8: a format other than \<^verbatim>\<open>vtk\<close> and \<^verbatim>\<open>vtu\<close> prints the error message and does
  nothing else before the cache is cleaned: no directory, no copy, no parse, no writer.
  With one of the two formats the Converter is built from the file name, the format and
  the default output folder, and its run is the run of the command line.
\<close>
theorem main_format_dispatch:
  "(format \<noteq> ''vtk'' \<and> format \<noteq> ''vtu'' \<longrightarrow>
      main env filename format w =
        (None, w\<lparr>trace := trace w @ [Print (wrong_format_msg format), CleanCache]\<rparr>)) \<and>
   ((format = ''vtk'' \<or> format = ''vtu'') \<and> Converter_init filename format None = Inr c \<longrightarrow>
      file_path c = filename \<and> fmt c = format \<and> priv_output_folder c = None \<and>
      fst (main env filename format w) = fst (run env c w) \<and>
      new_events w (snd (main env filename format w)) =
        run_events env c w @ (if fst (run env c w) = None then [CleanCache] else []) \<and>
      files (snd (main env filename format w)) = files (snd (run env c w)) \<and>
      dirs (snd (main env filename format w)) = dirs (snd (run env c w)))"
proof (intro conjI impI)
  assume "format \<noteq> ''vtk'' \<and> format \<noteq> ''vtu''"
  then show "main env filename format w =
        (None, w\<lparr>trace := trace w @ [Print (wrong_format_msg format), CleanCache]\<rparr>)"
    by (simp add: main_def emit_def)
next
  assume a: "(format = ''vtk'' \<or> format = ''vtu'') \<and> Converter_init filename format None = Inr c"
  then show "file_path c = filename" "fmt c = format" "priv_output_folder c = None"
    by (auto simp: Converter_init_def Let_def split: list.splits)
  obtain r w' where rw: "run env c w = (r, w')"
    by (cases "run env c w")
  have m: "main env filename format w = (case r of Some e \<Rightarrow> (Some e, w') | None \<Rightarrow> (None, emit CleanCache w'))"
    using a rw by (auto simp: main_def split: option.splits)
  show "fst (main env filename format w) = fst (run env c w)"
    by (simp add: m rw split: option.splits)
  show "files (snd (main env filename format w)) = files (snd (run env c w))"
    by (simp add: m rw split: option.splits)
  show "dirs (snd (main env filename format w)) = dirs (snd (run env c w))"
    by (simp add: m rw split: option.splits)
  show "new_events w (snd (main env filename format w)) =
        run_events env c w @ (if fst (run env c w) = None then [CleanCache] else [])"
    using run_trace [of env c w] by (simp add: m rw new_events_def split: option.splits)
qed

theorem main_format_dispatch_witness:
  "main (env_of (frd_of [1])) ''m.frd'' ''xml'' (world_of ''m.frd'') =
     (None, (world_of ''m.frd'')\<lparr>trace := [Print (wrong_format_msg ''xml''), CleanCache]\<rparr>) \<and>
   Converter_init ''m.frd'' ''vtu'' None = Inr (conv ''m.frd'' ''vtu'') \<and>
   fst (main (env_of (frd_of [1])) ''m.frd'' ''vtu'' (world_of ''m.frd'')) =
     fst (run (env_of (frd_of [1])) (conv ''m.frd'' ''vtu'') (world_of ''m.frd'')) \<and>
   files (snd (main (env_of (frd_of [1])) ''m.frd'' ''vtu'' (world_of ''m.frd''))) =
     files (snd (run (env_of (frd_of [1])) (conv ''m.frd'' ''vtu'') (world_of ''m.frd'')))"
  using main_format_dispatch [of "''xml''" "env_of (frd_of [1])" "''m.frd''" "world_of ''m.frd''"
      "conv ''m.frd'' ''vtu''"]
    main_format_dispatch [of "''vtu''" "env_of (frd_of [1])" "''m.frd''" "world_of ''m.frd''"
      "conv ''m.frd'' ''vtu''"]
  by (simp add: eval_defs)

subsection \<open>Staging the input\<close>

text \<open>
  C9: when the input file exists and is not the staged path itself, the first four calls
  of a run are, in this order, the creation of the output folder, the copy of the input
  to the staged path, the log line and the parse of the staged path; the staged path is
  the only path parsed, and the folder is among the directories afterwards. The staged
  path is the folder followed by name, dot and extension, with a slash between them
  unless the folder ends in one. When the
  parse yields an empty mesh, the staged copy, with the content of the input, is the
  only file the run adds, and no writer is called.
\<close>
theorem staging_before_parse:
  assumes "files w (file_path self) = Some d"
    and "file_path self \<noteq> output_file (abspath env) self"
  shows "take 4 (run_events env self w) =
           [Makedirs (output_folder (abspath env) self),
            Copy (file_path self) (output_file (abspath env) self),
            Log INFO (''Parsing '' @ relpath env (output_file (abspath env) self)),
            Parse (output_file (abspath env) self)] \<and>
         parse_calls (run_events env self w) = [output_file (abspath env) self] \<and>
         output_folder (abspath env) self \<in> dirs (snd (run env self w)) \<and>
         (\<not> startswith (file_name self @ ''.'' @ ext self) ''/'' \<longrightarrow>
            output_file (abspath env) self =
              output_folder (abspath env) self @ ''/'' @ file_name self @ ''.'' @ ext self \<or>
            output_file (abspath env) self =
              output_folder (abspath env) self @ file_name self @ ''.'' @ ext self) \<and>
         (parse_frd env d = Inr p \<and> (node_block p = None \<or> elem_block p = None) \<longrightarrow>
            fst (run env self w) = None \<and>
            files (snd (run env self w)) = (files w)(output_file (abspath env) self \<mapsto> d) \<and>
            vtk_calls (run_events env self w) = [] \<and>
            vtu_calls (run_events env self w) = [] \<and>
            pvd_calls (run_events env self w) = [])"
proof -
  let ?out = "output_file (abspath env) self"
  have len: "length (stage_events env self) = 4"
    by (simp add: stage_events_def)
  have A: "take 4 (run_events env self w) = stage_events env self \<and>
      parse_calls (run_events env self w) = [?out] \<and>
      output_folder (abspath env) self \<in> dirs (snd (run env self w))"
  proof (cases "parse_frd env d")
    case (Inl e)
    then show ?thesis
      using run_staged [OF assms]
      by (simp add: run_events_def new_events_def staged_def len)
  next
    case (Inr p')
    obtain evs where eff: "effect env (staged env self d w) evs
        (convert env self p' ?out (staged env self d w))" and pc: "parse_calls evs = []"
      by (rule convert_effect)
    note r = run_effect [OF assms Inr eff]
    show ?thesis
      by (simp add: r pc len)
  qed
  have B: "fst (run env self w) = None \<and>
            files (snd (run env self w)) = (files w)(?out \<mapsto> d) \<and>
            vtk_calls (run_events env self w) = [] \<and>
            vtu_calls (run_events env self w) = [] \<and>
            pvd_calls (run_events env self w) = []"
    if "parse_frd env d = Inr p" and "node_block p = None \<or> elem_block p = None"
  proof -
    have "convert env self p ?out (staged env self d w) =
          logging_warning ''File is empty!'' (staged env self d w)"
      using that(2) by (auto simp: convert_def)
    then have eff: "effect env (staged env self d w) [Log WARNING ''File is empty!'']
          (convert env self p ?out (staged env self d w))"
      by (simp add: effect_log)
    note r = run_effect [OF assms that(1) eff]
    show ?thesis
      by (simp add: r)
  qed
  have C: "output_file (abspath env) self =
              output_folder (abspath env) self @ ''/'' @ file_name self @ ''.'' @ ext self \<or>
            output_file (abspath env) self =
              output_folder (abspath env) self @ file_name self @ ''.'' @ ext self"
    if "\<not> startswith (file_name self @ ''.'' @ ext self) ''/''"
    using that by (simp add: output_file_def os_path_join_def)
  from A B C show ?thesis
    by (simp add: stage_events_def)
qed

theorem staging_before_parse_witness:
  "files (world_of ''dir/m.frd'') (file_path (conv ''dir/m.frd'' ''vtk'')) = Some ''FRD'' \<and>
   file_path (conv ''dir/m.frd'' ''vtk'') \<noteq> ''dir/results/m.frd'' \<and>
   parse_frd (env_of frd_empty) ''FRD'' = Inr frd_empty \<and> node_block frd_empty = None \<and>
   take 4 (run_events (env_of frd_empty) (conv ''dir/m.frd'' ''vtk'') (world_of ''dir/m.frd'')) =
     [Makedirs ''dir/results'', Copy ''dir/m.frd'' ''dir/results/m.frd'',
      Log INFO ''Parsing dir/results/m.frd'', Parse ''dir/results/m.frd''] \<and>
   parse_calls (run_events (env_of frd_empty) (conv ''dir/m.frd'' ''vtk'') (world_of ''dir/m.frd''))
     = [''dir/results/m.frd''] \<and>
   ''dir/results'' \<in> dirs (snd (run (env_of frd_empty) (conv ''dir/m.frd'' ''vtk'') (world_of ''dir/m.frd''))) \<and>
   output_file (abspath (env_of frd_empty)) (conv ''dir/m.frd'' ''vtk'') = ''dir/results'' @ ''/'' @ ''m.frd'' \<and>
   files (snd (run (env_of frd_empty) (conv ''dir/m.frd'' ''vtk'') (world_of ''dir/m.frd''))) =
     (files (world_of ''dir/m.frd''))(''dir/results/m.frd'' \<mapsto> ''FRD'')"
  using staging_before_parse [of "world_of ''dir/m.frd''" "conv ''dir/m.frd'' ''vtk''" "''FRD''"
      "env_of frd_empty" frd_empty]
  by (simp add: eval_defs)

subsection \<open>One time increment, and the legacy format\<close>

text \<open>
  C5: with a mesh, exactly one distinct time value and the format \<^verbatim>\<open>vtu\<close>, the run
  makes exactly one writer call, on the staged path with \<^verbatim>\<open>.frd\<close> replaced by
  \<^verbatim>\<open>.vtu\<close>, and does not call the series index writer. With the format \<^verbatim>\<open>vtk\<close> no
  run calls the series index writer, whatever the parse yields.
\<close>
theorem single_increment_no_index:
  "(files w (file_path self) = Some d \<and> file_path self \<noteq> output_file (abspath env) self \<and>
    parse_frd env d = Inr p \<and> node_block p \<noteq> None \<and> elem_block p \<noteq> None \<and>
    rb_value ` set (result_blocks p) = {t} \<and> fmt self = ''vtu'' \<longrightarrow>
      fst (run env self w) = None \<and>
      vtu_calls (run_events env self w) =
        [(replace (output_file (abspath env) self) ''.frd'' ''.vtu'', Some t)] \<and>
      vtk_calls (run_events env self w) = [] \<and>
      pvd_calls (run_events env self w) = [] \<and>
      files (snd (run env self w)) =
        (files w)(output_file (abspath env) self \<mapsto> d,
                  replace (output_file (abspath env) self) ''.frd'' ''.vtu'' \<mapsto> vtu_text env p (Some t))) \<and>
   (fmt self = ''vtk'' \<longrightarrow> pvd_calls (run_events env self w) = [])"
proof (intro conjI impI)
  assume a: "files w (file_path self) = Some d \<and> file_path self \<noteq> output_file (abspath env) self \<and>
    parse_frd env d = Inr p \<and> node_block p \<noteq> None \<and> elem_block p \<noteq> None \<and>
    rb_value ` set (result_blocks p) = {t} \<and> fmt self = ''vtu''"
  let ?out = "output_file (abspath env) self"
  let ?w = "staged env self d w"
  have t: "times_of p = [t]"
    using a by (simp add: single_time)
  have "convert env self p ?out ?w = write_increments env self p ?out [t] ?w"
    using a by (simp add: convert_def t)
  then have eff: "effect env ?w
     [Log INFO (str 1 @ '' time increment''), Log INFO (''Writing '' @ relpath env (replace ?out ''.frd'' ''.vtu'')),
      WriteVTU p (replace ?out ''.frd'' ''.vtu'') (Some t)]
     (convert env self p ?out ?w)"
    using effect_write_increments [of env ?w "[t]" self p ?out] a
    by (simp add: ext_of_def item_events_def)
  have s: "files w (file_path self) = Some d" "file_path self \<noteq> ?out" "parse_frd env d = Inr p"
    using a by simp_all
  note r = run_effect [OF s eff]
  show "fst (run env self w) = None"
    "vtu_calls (run_events env self w) = [(replace ?out ''.frd'' ''.vtu'', Some t)]"
    "vtk_calls (run_events env self w) = []"
    "pvd_calls (run_events env self w) = []"
    "files (snd (run env self w)) =
        (files w)(?out \<mapsto> d, replace ?out ''.frd'' ''.vtu'' \<mapsto> vtu_text env p (Some t))"
    by (simp_all add: r)
next
  assume vtk: "fmt self = ''vtk''"
  show "pvd_calls (run_events env self w) = []"
  proof (cases rule: run_cases [of env self w])
    case (copy_failed e)
    then show ?thesis
      by (simp add: run_events_def new_events_def makedirs_def)
  next
    case (parse_failed d e)
    then show ?thesis
      by (simp add: run_events_def new_events_def staged_def)
  next
    case (converted d' p')
    obtain evs where eff: "effect env (staged env self d' w) evs
        (convert env self p' (output_file (abspath env) self) (staged env self d' w))"
      and "pvd_calls evs = []"
      using convert_effect [of env "staged env self d' w" self p' "output_file (abspath env) self"] vtk
      by blast
    then show ?thesis
      using run_effect(2) [OF converted(1-3) eff] by simp
  qed
qed

theorem single_increment_no_index_witness:
  "files (world_of ''m.frd'') (file_path (conv ''m.frd'' ''vtu'')) = Some ''FRD'' \<and>
   rb_value ` set (result_blocks (frd_of [5, 5])) = {5} \<and>
   fst (run (env_of (frd_of [5, 5])) (conv ''m.frd'' ''vtu'') (world_of ''m.frd'')) = None \<and>
   vtu_calls (run_events (env_of (frd_of [5, 5])) (conv ''m.frd'' ''vtu'') (world_of ''m.frd'')) =
     [(replace ''results/m.frd'' ''.frd'' ''.vtu'', Some 5)] \<and>
   pvd_calls (run_events (env_of (frd_of [5, 5])) (conv ''m.frd'' ''vtu'') (world_of ''m.frd'')) = [] \<and>
   fmt (conv ''m.frd'' ''vtk'') = ''vtk'' \<and>
   pvd_calls (run_events (env_of (frd_of [1, 2])) (conv ''m.frd'' ''vtk'') (world_of ''m.frd'')) = []"
  using single_increment_no_index [of "world_of ''m.frd''" "conv ''m.frd'' ''vtu''" "''FRD''"
      "env_of (frd_of [5, 5])" "frd_of [5, 5]" 5]
    single_increment_no_index [of "world_of ''m.frd''" "conv ''m.frd'' ''vtk''" "''FRD''"
      "env_of (frd_of [1, 2])" "frd_of [1, 2]" 1]
  by (simp add: eval_defs)

subsection \<open>More than one time increment in XML mode\<close>




subsection \<open>The increment suffix\<close>




subsection \<open>One writer call for each distinct time value\<close>




subsection \<open>Name, extension and the names of the output files\<close>

text \<open>
  C10 as stated fails for an extension that begins with \<^verbatim>\<open>frd\<close>. An extension other
  than \<^verbatim>\<open>frd\<close> does not keep \<^verbatim>\<open>.frd\<close> out of the staged path:
  for the input \<^verbatim>\<open>m.frdx\<close> the extension is \<^verbatim>\<open>frdx\<close>, and the name of the one time
  increment is \<^verbatim>\<open>results/m.vtux\<close>, not the staged path \<^verbatim>\<open>results/m.frdx\<close>.
\<close>
theorem output_names_by_replacement_counterexample:
  "ext (conv ''m.frdx'' ''vtu'') = ''frdx'' \<and> ext (conv ''m.frdx'' ''vtu'') \<noteq> ''frd'' \<and>
   output_file (\<lambda>x. x) (conv ''m.frdx'' ''vtu'') = ''results/m.frdx'' \<and>
   timed_calls (run_events (env_of (frd_of [1])) (conv ''m.frdx'' ''vtu'') (world_of ''m.frdx'')) =
     [(''results/m.vtux'', Some 1)] \<and>
   ''results/m.vtux'' \<noteq> ''results/m.frdx''"
  by code_simp

text \<open>
  C10, amended: the constructor splits the basename of the input at its dots and takes
  the first segment as the name and the second as the extension; the staged path is the
  output folder joined with name, dot and extension, so further segments are dropped.
  The names of the time increments are the staged path with \<^verbatim>\<open>.frd\<close> replaced by the
  suffix; consequently, when the staged path does not contain \<^verbatim>\<open>.frd\<close>, every one of
  them is the staged path itself.
\<close>
theorem output_names_by_replacement:
  "(Converter_init path f folder = Inr self \<longrightarrow>
      (\<exists>rest. split (snd (os_path_split path)) (CHR ''.'') = file_name self # ext self # rest) \<and>
      file_path self = path \<and> fmt self = f \<and> priv_output_folder self = folder \<and>
      output_file a self = os_path_join (output_folder a self) (file_name self @ ''.'' @ ext self)) \<and>
   (files w (file_path self) = Some d \<and> file_path self \<noteq> output_file (abspath env) self \<and>
    parse_frd env d = Inr p \<and> node_block p \<noteq> None \<and> elem_block p \<noteq> None \<and>
    L = length (times_of p) \<and> L \<noteq> 0 \<and> (fmt self = ''vtk'' \<or> fmt self = ''vtu'') \<and>
    out = output_file (abspath env) self \<longrightarrow>
      map fst (timed_calls (run_events env self w)) =
        map (\<lambda>i. replace out ''.frd''
               (if L > 1 then ''.'' @ format_0 i (length (str L)) @ ''.'' @ fmt self
                else ''.'' @ fmt self)) [1..<Suc L] \<and>
      (\<not> contains out ''.frd'' \<longrightarrow>
         map fst (timed_calls (run_events env self w)) = replicate L out))"
proof (intro conjI impI)
  assume i: "Converter_init path f folder = Inr self"
  then show "\<exists>rest. split (snd (os_path_split path)) (CHR ''.'') = file_name self # ext self # rest"
    "file_path self = path" "fmt self = f" "priv_output_folder self = folder"
    by (auto simp: Converter_init_def Let_def split: list.splits)
  show "output_file a self = os_path_join (output_folder a self) (file_name self @ ''.'' @ ext self)"
    by (simp add: output_file_def)
next
  assume a: "files w (file_path self) = Some d \<and> file_path self \<noteq> output_file (abspath env) self \<and>
    parse_frd env d = Inr p \<and> node_block p \<noteq> None \<and> elem_block p \<noteq> None \<and>
    L = length (times_of p) \<and> L \<noteq> 0 \<and> (fmt self = ''vtk'' \<or> fmt self = ''vtu'') \<and>
    out = output_file (abspath env) self"
  define names where "names = map (\<lambda>i. replace out ''.frd'' (ext_of (fmt self) L i)) [1..<Suc L]"
  have h: "files w (file_path self) = Some d" "file_path self \<noteq> output_file (abspath env) self"
    "parse_frd env d = Inr p" "node_block p \<noteq> None" "elem_block p \<noteq> None"
    "times_of p \<noteq> []" "L = length (times_of p)" "out = output_file (abspath env) self"
    "fmt self = ''vtk'' \<or> fmt self = ''vtu''"
    using a by auto
  note r = run_timed [OF h(1-8) names_def]
  have len: "length (times_of p) = length names"
    by (simp add: names_def h(7) del: upt_Suc)
  have tc: "timed_calls (run_events env self w) = zip names (map Some (times_of p))"
    using zip_swap [OF len, of Some] by (simp add: r(2) item_events_timed [OF h(9)])
  have n: "map fst (timed_calls (run_events env self w)) = names"
    using len by (simp add: tc)
  show "map fst (timed_calls (run_events env self w)) =
        map (\<lambda>i. replace out ''.frd''
               (if L > 1 then ''.'' @ format_0 i (length (str L)) @ ''.'' @ fmt self
                else ''.'' @ fmt self)) [1..<Suc L]"
    unfolding n names_def by (simp add: ext_of_def)
  show "map fst (timed_calls (run_events env self w)) = replicate L out"
    if "\<not> contains out ''.frd''"
    unfolding n names_def by (simp add: replace_id [OF that] map_replicate_const del: upt_Suc)
qed

theorem output_names_by_replacement_witness:
  "Converter_init ''run/beam.v2.frd'' ''vtu'' None = Inr (conv ''run/beam.v2.frd'' ''vtu'') \<and>
   split (snd (os_path_split ''run/beam.v2.frd'')) (CHR ''.'') = [''beam'', ''v2'', ''frd''] \<and>
   file_name (conv ''run/beam.v2.frd'' ''vtu'') = ''beam'' \<and>
   ext (conv ''run/beam.v2.frd'' ''vtu'') = ''v2'' \<and>
   output_file (\<lambda>x. x) (conv ''run/beam.v2.frd'' ''vtu'') = ''run/results/beam.v2'' \<and>
   \<not> contains ''run/results/beam.v2'' ''.frd'' \<and>
   length (times_of (frd_of [5, 6])) = 2 \<and>
   map fst (timed_calls (run_events (env_of (frd_of [5, 6])) (conv ''run/beam.v2.frd'' ''vtu'')
     (world_of ''run/beam.v2.frd''))) = [''run/results/beam.v2'', ''run/results/beam.v2'']"
proof -
  let ?P = "frd_of [5, 6]"
  let ?E = "env_of ?P"
  let ?C = "conv ''run/beam.v2.frd'' ''vtu''"
  let ?W = "world_of ''run/beam.v2.frd''"
  have i: "Converter_init ''run/beam.v2.frd'' ''vtu'' None = Inr ?C"
    by (simp add: eval_defs)
  have c: "?C = \<lparr>file_path = ''run/beam.v2.frd'', file_name = ''beam'',
      priv_output_folder = None, ext = ''v2'', fmt = ''vtu''\<rparr>"
    by (simp add: eval_defs)
  have sp: "split (snd (os_path_split ''run/beam.v2.frd'')) (CHR ''.'') = [''beam'', ''v2'', ''frd'']"
    by (simp add: eval_defs)
  have t: "times_of ?P = [5, 6]"
    by (simp add: times_of_def frd_of_def)
  have h1: "files ?W (file_path ?C) = Some ''FRD''"
    by (simp add: eval_defs)
  have h9: "output_file (abspath ?E) ?C = ''run/results/beam.v2''"
    by (simp add: eval_defs)
  have h2: "file_path ?C \<noteq> output_file (abspath ?E) ?C"
    unfolding h9 by (simp add: eval_defs)
  have h3: "parse_frd ?E ''FRD'' = Inr ?P"
    by (simp add: env_of_def)
  have h4: "node_block ?P \<noteq> None" "elem_block ?P \<noteq> None"
    by (simp_all add: frd_of_def)
  have h8: "fmt ?C = ''vtu''"
    by (simp add: eval_defs)
  have k: "\<not> contains ''run/results/beam.v2'' ''.frd''"
    by code_simp
  have o: "output_file (\<lambda>x. x) ?C = ''run/results/beam.v2''"
    using h9 by (simp add: env_of_def)
  note th = output_names_by_replacement [of "''run/beam.v2.frd''" "''vtu''" None ?C "\<lambda>x. x"
      ?W "''FRD''" ?E ?P 2 "''run/results/beam.v2''"]
  have hyp: "files ?W (file_path ?C) = Some ''FRD'' \<and> file_path ?C \<noteq> output_file (abspath ?E) ?C \<and>
    parse_frd ?E ''FRD'' = Inr ?P \<and> node_block ?P \<noteq> None \<and> elem_block ?P \<noteq> None \<and>
    2 = length (times_of ?P) \<and> (2::nat) \<noteq> 0 \<and> (fmt ?C = ''vtk'' \<or> fmt ?C = ''vtu'') \<and>
    ''run/results/beam.v2'' = output_file (abspath ?E) ?C"
    using h1 h2 h3 h4 h8 h9 t by simp
  have "map fst (timed_calls (run_events ?E ?C ?W)) = replicate 2 ''run/results/beam.v2''"
    using th [THEN conjunct2, THEN mp, OF hyp, THEN conjunct2, THEN mp, OF k] .
  then have m: "map fst (timed_calls (run_events ?E ?C ?W)) =
      [''run/results/beam.v2'', ''run/results/beam.v2'']"
    by (simp add: eval_nat_numeral)
  show ?thesis
    using i sp k t m o by (simp add: c)
qed

subsection \<open>Running twice\<close>

text \<open>
  C7: when a run has returned normally and the input file is afterwards what it was
  before, a second run with the same Converter, started in the world the first one left,
  returns normally as well, makes the same calls with the same arguments, writes the
  same file names with the same contents, and leaves the files and directories exactly
  as the first run left them.
\<close>
theorem rerun_same_outputs:
  assumes "fst (run env self w) = None"
    and "files (snd (run env self w)) (file_path self) = files w (file_path self)"
  shows "fst (run env self (snd (run env self w))) = None \<and>
     run_events env self (snd (run env self w)) = run_events env self w \<and>
     writes env (run_events env self (snd (run env self w))) = writes env (run_events env self w) \<and>
     files (snd (run env self (snd (run env self w)))) = files (snd (run env self w)) \<and>
     dirs (snd (run env self (snd (run env self w)))) = dirs (snd (run env self w))"
proof (cases rule: run_cases [of env self w])
  case (copy_failed e)
  then show ?thesis using assms(1) by simp
next
  case (parse_failed d e)
  then show ?thesis using assms(1) by simp
next
  case (converted d p)
  let ?out = "output_file (abspath env) self"
  let ?E = "convert_events env self p ?out"
  let ?M = "map_of (rev (writes env ?E))"
  let ?w1 = "snd (run env self w)"
  note r1 = run_effect [OF converted(1-3) effect_convert_events]
  have f1: "files ?w1 (file_path self) = Some d"
    using assms(2) converted(1) by simp
  note r2 = run_effect [OF f1 converted(2,3) effect_convert_events]
  have files: "files (snd (run env self ?w1)) = files ?w1"
  proof (rule ext)
    fix x
    show "files (snd (run env self ?w1)) x = files ?w1 x"
      by (cases "?M x") (simp_all add: r1(3) r2(3) map_add_def)
  qed
  have dirs: "dirs (snd (run env self ?w1)) = dirs ?w1"
    by (simp add: r1(4) r2(4))
  show ?thesis
    using files dirs by (simp add: r1(2) r2(1,2))
qed

theorem rerun_same_outputs_witness:
  "fst (run (env_of (frd_of [2, 1])) (conv ''m.frd'' ''vtu'') (world_of ''m.frd'')) = None \<and>
   files (snd (run (env_of (frd_of [2, 1])) (conv ''m.frd'' ''vtu'') (world_of ''m.frd''))) ''m.frd'' =
     Some ''FRD'' \<and>
   fst (run (env_of (frd_of [2, 1])) (conv ''m.frd'' ''vtu'')
     (snd (run (env_of (frd_of [2, 1])) (conv ''m.frd'' ''vtu'') (world_of ''m.frd'')))) = None \<and>
   files (snd (run (env_of (frd_of [2, 1])) (conv ''m.frd'' ''vtu'')
     (snd (run (env_of (frd_of [2, 1])) (conv ''m.frd'' ''vtu'') (world_of ''m.frd''))))) =
   files (snd (run (env_of (frd_of [2, 1])) (conv ''m.frd'' ''vtu'') (world_of ''m.frd''))) \<and>
   writes (env_of (frd_of [2, 1])) (run_events (env_of (frd_of [2, 1])) (conv ''m.frd'' ''vtu'')
     (snd (run (env_of (frd_of [2, 1])) (conv ''m.frd'' ''vtu'') (world_of ''m.frd'')))) =
     [(''results/m.1.vtu'', ''vtu 1''), (''results/m.2.vtu'', ''vtu 2''),
      (''results/m.pvd'', ''pvd results/m.1.vturesults/m.2.vtu'')]"
proof -
  let ?E = "env_of (frd_of [2, 1])"
  let ?C = "conv ''m.frd'' ''vtu''"
  let ?W = "world_of ''m.frd''"
  have h1: "fst (run ?E ?C ?W) = None"
    by code_simp
  have fp: "file_path ?C = ''m.frd''"
    by (simp add: eval_defs)
  have h2: "files (snd (run ?E ?C ?W)) ''m.frd'' = Some ''FRD''"
    by code_simp
  have h2': "files (snd (run ?E ?C ?W)) (file_path ?C) = files ?W (file_path ?C)"
    unfolding fp h2 by (simp add: world_of_def)
  have wr: "writes ?E (run_events ?E ?C ?W) =
     [(''results/m.1.vtu'', ''vtu 1''), (''results/m.2.vtu'', ''vtu 2''),
      (''results/m.pvd'', ''pvd results/m.1.vturesults/m.2.vtu'')]"
    by code_simp
  note th = rerun_same_outputs [OF h1 h2']
  show ?thesis
    using th h1 h2 wr by simp
qed

end
